theory Spec2Isabelle
  imports Complex_Main
begin

section \<open>Errors\<close>

text \<open>
  The exceptions the modelled Python raises. \<open>ValueError\<close>, \<open>LabelError\<close> and
  \<open>KeyError\<close> carry the message (or the missing key) the source passes. Python floats
  are modelled as real numbers: rounding, overflow and NaN are outside this development.
\<close>

datatype error =
    ValueError string
  | LabelError string
  | KeyError string
  | TypeError
  | ZeroDivisionError
  | IndexError

section \<open>project/practice.py\<close>

text \<open>
  \<open>bisect.bisect_left(a, x)\<close> of the Python standard library, with its default bounds
  \<open>lo = 0\<close>, \<open>hi = len(a)\<close>:
  \<^verbatim>\<open>while lo < hi: mid = (lo + hi) // 2; if a[mid] < x: lo = mid + 1 else: hi = mid\<close>
  and then \<open>return lo\<close>.
\<close>

function bisect_loop :: "real list \<Rightarrow> real \<Rightarrow> nat \<Rightarrow> nat \<Rightarrow> nat" where
  "bisect_loop a x lo hi =
     (if lo < hi then
        (let mid = (lo + hi) div 2
         in if a ! mid < x then bisect_loop a x (mid + 1) hi
            else bisect_loop a x lo mid)
      else lo)"
  by pat_completeness auto
termination
  by (relation "measure (\<lambda>(a, x, lo, hi). hi - lo)") auto

definition bisect_left :: "real list \<Rightarrow> real \<Rightarrow> nat" where
  "bisect_left a x = bisect_loop a x 0 (length a)"

text \<open>
  \<open>closest_index(myList, myNumber)\<close>. Every read \<open>myList[pos - 1]\<close>, \<open>myList[pos]\<close>
  happens with \<open>0 < pos < len(myList)\<close>, so no read is out of range.
\<close>

definition closest_index :: "real list \<Rightarrow> real \<Rightarrow> nat" where
  "closest_index myList myNumber =
     (let pos = bisect_left myList myNumber
      in if pos = 0 then 0
         else if pos = length myList then length myList
         else (let before = myList ! (pos - 1); after = myList ! pos
               in if after - myNumber < myNumber - before then pos else pos - 1))"

definition index_of_grid_at_x :: "real list \<Rightarrow> real \<Rightarrow> nat" where
  "index_of_grid_at_x grid x = closest_index grid x"

text \<open>\<open>phi_at_x(phi, grid, x)\<close>: \<open>phi[index]\<close> raises IndexError when the index is not
  below \<open>len(phi)\<close> (the index is never negative).\<close>

definition phi_at_x :: "real list \<Rightarrow> real list \<Rightarrow> real \<Rightarrow> error + real" where
  "phi_at_x phi grid x =
     (let index = index_of_grid_at_x grid x
      in if index < length phi then Inr (phi ! index) else Inl IndexError)"

section \<open>pyscses/site.py: data\<close>

text \<open>
  The classes \<open>DefectSpecies\<close>, \<open>DefectAtSite\<close>, \<open>SiteData\<close> and \<open>GridPoint\<close> live in
  modules that are not part of the sources at hand; they are represented by the attributes
  and methods that \<open>site.py\<close> reads. The back-reference \<open>site=self\<close> that a \<open>DefectAtSite\<close>
  receives is never read by \<open>site.py\<close> and is left out.
\<close>

record DefectSpecies =
  ds_label :: string
  ds_valence :: real
  ds_mole_fraction :: real
  ds_mobility :: real
  ds_can_equilibrate :: bool

record DefectAtSite =
  label :: string
  valence :: real
  mole_fraction :: real
  mobility :: real
  energy :: real
  can_equilibrate :: bool

text \<open>A \<open>GridPoint\<close> is the object whose method \<open>average_site_energy(method)\<close> is called.\<close>

datatype GridPoint = GridPoint (average_site_energy: "string \<Rightarrow> error + real list")

text \<open>One entry of \<open>site_data.defect_data\<close>, and the \<open>SiteData\<close> record itself.\<close>

record DefectData =
  dd_label :: string
  dd_energy :: real

record SiteData =
  sd_label :: string
  sd_x :: real
  sd_valence :: real
  defect_data :: "DefectData list"

text \<open>
  The attributes of a \<open>Site\<close>. \<open>scaling\<close> is a one-dimensional numpy array, modelled
  as the list of its entries.
\<close>

record Site =
  site_label :: string
  site_x :: real
  defect_energies :: "real list"
  defect_species :: "DefectSpecies list"
  defects :: "DefectAtSite list"
  scaling :: "real list"
  grid_point :: "GridPoint option"
  site_valence :: real
  saturation_parameter :: real
  fixed_defects :: "DefectAtSite list"
  mobile_defects :: "DefectAtSite list"
  alpha :: real
  fixed_charge :: real

datatype warning = DeprecationWarning string

text \<open>
  The method \<open>DefectAtSite.boltzmann_factor(phi, temp)\<close> is a parameter of every operation
  that calls it.
\<close>

type_synonym boltzmann = "DefectAtSite \<Rightarrow> real \<Rightarrow> real \<Rightarrow> real"

section \<open>pyscses/site.py: Python and numpy primitives\<close>

text \<open>A list comprehension whose element expression may raise: the first exception wins.\<close>

fun list_comp :: "('a \<Rightarrow> error + 'b) \<Rightarrow> 'a list \<Rightarrow> error + 'b list" where
  "list_comp f [] = Inr []"
| "list_comp f (x # xs) =
     (case f x of
        Inl e \<Rightarrow> Inl e
      | Inr y \<Rightarrow> (case list_comp f xs of Inl e \<Rightarrow> Inl e | Inr ys \<Rightarrow> Inr (y # ys)))"

text \<open>A dict comprehension: entries are stored in order, a later key replaces an earlier one.\<close>

definition dict_comp :: "(string \<times> real) list \<Rightarrow> (string \<rightharpoonup> real)" where
  "dict_comp kvs = foldl (\<lambda>m (k, v). m(k \<mapsto> v)) Map.empty kvs"

text \<open>\<open>d[key]\<close> raises KeyError for a missing key.\<close>

definition getitem :: "(string \<rightharpoonup> real) \<Rightarrow> string \<Rightarrow> error + real" where
  "getitem d k = (case d k of None \<Rightarrow> Inl (KeyError k) | Some v \<Rightarrow> Inr v)"

text \<open>Division of Python floats raises ZeroDivisionError on a zero divisor.\<close>

definition truediv :: "real \<Rightarrow> real \<Rightarrow> error + real" where
  "truediv a b = (if b = 0 then Inl ZeroDivisionError else Inr (a / b))"

text \<open>
  \<open>bool(scaling)\<close> for \<open>scaling: Optional[np.ndarray]\<close>: \<open>None\<close> and the empty array are
  false, an array of one entry is true when the entry is not zero, and numpy refuses to
  give a larger array a truth value.
\<close>

fun truth_value :: "real list option \<Rightarrow> error + bool" where
  "truth_value None = Inr False"
| "truth_value (Some []) = Inr False"
| "truth_value (Some [v]) = Inr (v \<noteq> 0)"
| "truth_value (Some (v # w # a)) =
     Inl (ValueError ''The truth value of an array with more than one element is ambiguous. Use a.any() or a.all()'')"

text \<open>\<open>np.ones_like(defect_energies, dtype=float)\<close> for a flat list of floats.\<close>

definition ones_like :: "real list \<Rightarrow> real list" where
  "ones_like a = replicate (length a) 1"

text \<open>
  \<open>float(a)\<close> for a one-dimensional numpy array: the entry of an array of size one,
  TypeError (only length-1 arrays can be converted to Python scalars) otherwise.
\<close>

fun float_of_ndarray :: "real list \<Rightarrow> error + real" where
  "float_of_ndarray [v] = Inr v"
| "float_of_ndarray a = Inl TypeError"

section \<open>pyscses/site.py: the class Site\<close>

text \<open>\<open>Site.calculate_fixed_charge\<close>, the loop over \<open>self.defects\<close> as a left fold.\<close>

definition calculate_fixed_charge :: "real \<Rightarrow> Site \<Rightarrow> real" where
  "calculate_fixed_charge fundamental_charge self =
     foldl (\<lambda>acc defect. if \<not> can_equilibrate defect
                           then acc + mole_fraction defect * valence defect else acc)
       (site_valence self) (defects self) * fundamental_charge"

text \<open>The \<open>DefectAtSite\<close> built for one pair of \<open>zip(defect_species, defect_energies)\<close>.\<close>

definition make_defect :: "DefectSpecies \<times> real \<Rightarrow> DefectAtSite" where
  "make_defect de =
     \<lparr>label = ds_label (fst de), valence = ds_valence (fst de),
      mole_fraction = ds_mole_fraction (fst de), mobility = ds_mobility (fst de),
      energy = snd de, can_equilibrate = ds_can_equilibrate (fst de)\<rparr>"

text \<open>
  The assignments of \<open>Site.__init__\<close> after validation, for the array \<open>sc\<close> chosen as
  \<open>self.scaling\<close>. \<open>calculate_fixed_charge\<close> runs on the object with every other
  attribute already set.
\<close>

definition Site_assign ::
  "real \<Rightarrow> string \<Rightarrow> real \<Rightarrow> DefectSpecies list \<Rightarrow> real list \<Rightarrow> real list \<Rightarrow> real \<Rightarrow> real \<Rightarrow> Site"
where
  "Site_assign fundamental_charge lbl xpos species energies sc val sat =
     (let ds = map make_defect (zip species energies);
          fixed = filter (\<lambda>d. \<not> can_equilibrate d) ds;
          mobile = filter (\<lambda>d. can_equilibrate d) ds;
          self = \<lparr>site_label = lbl, site_x = xpos, defect_energies = energies,
                  defect_species = species, defects = ds, scaling = sc,
                  grid_point = None, site_valence = val, saturation_parameter = sat,
                  fixed_defects = fixed, mobile_defects = mobile,
                  alpha = sat - sum_list (map mole_fraction fixed), fixed_charge = 0\<rparr>
      in self\<lparr>fixed_charge := calculate_fixed_charge fundamental_charge self\<rparr>)"

text \<open>
  \<open>Site.__init__(label, x, defect_species, defect_energies, scaling, valence,
  saturation_parameter)\<close>; the module constant \<open>fundamental_charge\<close> is the first argument.
\<close>

definition Site_init ::
  "real \<Rightarrow> string \<Rightarrow> real \<Rightarrow> DefectSpecies list \<Rightarrow> real list \<Rightarrow> real list option \<Rightarrow> real \<Rightarrow> real
     \<Rightarrow> error + Site"
where
  "Site_init fundamental_charge lbl xpos species energies scaling_arg val sat =
     (if length species \<noteq> length energies
      then Inl (ValueError ''len(defect_species) must be equal to len(defect_energies)'')
      else
        (case truth_value scaling_arg of
           Inl e \<Rightarrow> Inl e
         | Inr given \<Rightarrow>
             (case (given, scaling_arg) of
                (True, Some sc) \<Rightarrow>
                  if length species \<noteq> length sc
                  then Inl (ValueError ''len(defect_species) must be equal to len(scaling)'')
                  else Inr (Site_assign fundamental_charge lbl xpos species energies sc val sat)
              | _ \<Rightarrow>
                  Inr (Site_assign fundamental_charge lbl xpos species energies
                         (ones_like energies) val sat))))"

text \<open>\<open>Site.average_local_energy(method)\<close>.\<close>

definition average_local_energy :: "Site \<Rightarrow> string \<Rightarrow> error + real list" where
  "average_local_energy self method =
     (case grid_point self of
        Some g \<Rightarrow> average_site_energy g method
      | None \<Rightarrow> Inl (ValueError ''TODO''))"

text \<open>
  The first three statements shared by \<open>probabilities\<close> and \<open>mobile_defect_probabilities\<close>:
  the dict \<open>boltzmann_factors\<close> and the \<open>denominator\<close>.
\<close>

definition boltzmann_factors :: "boltzmann \<Rightarrow> Site \<Rightarrow> real \<Rightarrow> real \<Rightarrow> (string \<rightharpoonup> real)" where
  "boltzmann_factors bf self phi temp =
     dict_comp (map (\<lambda>d. (label d, bf d phi temp)) (mobile_defects self))"

definition denominator :: "boltzmann \<Rightarrow> Site \<Rightarrow> real \<Rightarrow> real \<Rightarrow> error + real" where
  "denominator bf self phi temp =
     (case list_comp (\<lambda>d. case getitem (boltzmann_factors bf self phi temp) (label d) of
                             Inl e \<Rightarrow> Inl e
                           | Inr b \<Rightarrow> Inr (mole_fraction d * (b - 1)))
             (mobile_defects self) of
        Inl e \<Rightarrow> Inl e
      | Inr terms \<Rightarrow> Inr (alpha self + sum_list terms))"

text \<open>The loop \<open>for defect in self.defects\<close> of \<open>Site.probabilities\<close>.\<close>

fun probabilities_loop ::
  "Site \<Rightarrow> (string \<rightharpoonup> real) \<Rightarrow> real \<Rightarrow> DefectAtSite list \<Rightarrow> (string \<rightharpoonup> real)
     \<Rightarrow> error + (string \<rightharpoonup> real)"
where
  "probabilities_loop self bfs den [] probabilities_dict = Inr probabilities_dict"
| "probabilities_loop self bfs den (defect # rest) probabilities_dict =
     (if \<not> can_equilibrate defect
      then probabilities_loop self bfs den rest
             (probabilities_dict(label defect \<mapsto> mole_fraction defect))
      else
        (case getitem bfs (label defect) of
           Inl e \<Rightarrow> Inl e
         | Inr b \<Rightarrow>
             (case truediv (alpha self * mole_fraction defect * b) den of
                Inl e \<Rightarrow> Inl e
              | Inr p \<Rightarrow>
                  probabilities_loop self bfs den rest
                    (probabilities_dict(label defect \<mapsto> p)))))"

definition probabilities ::
  "boltzmann \<Rightarrow> Site \<Rightarrow> real \<Rightarrow> real \<Rightarrow> error + (string \<rightharpoonup> real)"
where
  "probabilities bf self phi temp =
     (case denominator bf self phi temp of
        Inl e \<Rightarrow> Inl e
      | Inr den \<Rightarrow>
          probabilities_loop self (boltzmann_factors bf self phi temp) den
            (defects self) Map.empty)"

text \<open>The loop of \<open>Site.mobile_defect_probabilities\<close>: only mobile defects are stored.\<close>

fun mobile_loop ::
  "Site \<Rightarrow> (string \<rightharpoonup> real) \<Rightarrow> real \<Rightarrow> DefectAtSite list \<Rightarrow> (string \<rightharpoonup> real)
     \<Rightarrow> error + (string \<rightharpoonup> real)"
where
  "mobile_loop self bfs den [] probabilities_dict = Inr probabilities_dict"
| "mobile_loop self bfs den (defect # rest) probabilities_dict =
     (if can_equilibrate defect
      then
        (case getitem bfs (label defect) of
           Inl e \<Rightarrow> Inl e
         | Inr b \<Rightarrow>
             (case truediv (alpha self * mole_fraction defect * b) den of
                Inl e \<Rightarrow> Inl e
              | Inr p \<Rightarrow>
                  mobile_loop self bfs den rest (probabilities_dict(label defect \<mapsto> p))))
      else mobile_loop self bfs den rest probabilities_dict)"

definition mobile_defect_probabilities ::
  "boltzmann \<Rightarrow> Site \<Rightarrow> real \<Rightarrow> real \<Rightarrow> error + (string \<rightharpoonup> real)"
where
  "mobile_defect_probabilities bf self phi temp =
     (case denominator bf self phi temp of
        Inl e \<Rightarrow> Inl e
      | Inr den \<Rightarrow>
          mobile_loop self (boltzmann_factors bf self phi temp) den (defects self) Map.empty)"

text \<open>
  \<open>Site.probabilities_as_list\<close>: the warning it issues is returned beside the result.
\<close>

definition probabilities_as_list ::
  "boltzmann \<Rightarrow> Site \<Rightarrow> real \<Rightarrow> real \<Rightarrow> warning list \<times> (error + real list)"
where
  "probabilities_as_list bf self phi temp =
     ([DeprecationWarning ''Site.probabilities_as_list() is deprecated and targeted for removal. Please use Site.probabilities() instead.''],
      (case probabilities bf self phi temp of
         Inl e \<Rightarrow> Inl e
       | Inr probabilities_dict \<Rightarrow>
           list_comp (\<lambda>d. getitem probabilities_dict (label d)) (defects self)))"

text \<open>
  The element expression \<open>probs[d.label] * d.valence\<close> of the two charge sums.
\<close>

definition weighted_valence :: "(string \<rightharpoonup> real) \<Rightarrow> DefectAtSite \<Rightarrow> error + real" where
  "weighted_valence probs d =
     (case getitem probs (label d) of Inl e \<Rightarrow> Inl e | Inr p \<Rightarrow> Inr (p * valence d))"

text \<open>
  \<open>Site.charge\<close>. The product \<open>sum([...]) * self.scaling\<close> is a new array with one entry
  per entry of \<open>scaling\<close>; \<open>charge += self.valence\<close> and \<open>charge *= fundamental_charge\<close> act
  on every entry, and \<open>float(charge)\<close> converts the array.
\<close>

definition charge :: "boltzmann \<Rightarrow> real \<Rightarrow> Site \<Rightarrow> real \<Rightarrow> real \<Rightarrow> error + real" where
  "charge bf fundamental_charge self phi temp =
     (case probabilities bf self phi temp of
        Inl e \<Rightarrow> Inl e
      | Inr defect_probabilities \<Rightarrow>
          (case list_comp (weighted_valence defect_probabilities) (defects self) of
             Inl e \<Rightarrow> Inl e
           | Inr terms \<Rightarrow>
               float_of_ndarray
                 (map (\<lambda>c. (sum_list terms * c + site_valence self) * fundamental_charge)
                    (scaling self))))"

text \<open>\<open>Site.charge_from_mobile_defects\<close>.\<close>

definition charge_from_mobile_defects ::
  "boltzmann \<Rightarrow> real \<Rightarrow> Site \<Rightarrow> real \<Rightarrow> real \<Rightarrow> error + real"
where
  "charge_from_mobile_defects bf fundamental_charge self phi temp =
     (case mobile_defect_probabilities bf self phi temp of
        Inl e \<Rightarrow> Inl e
      | Inr mobile_probs \<Rightarrow>
          (case list_comp (weighted_valence mobile_probs) (defects self) of
             Inl e \<Rightarrow> Inl e
           | Inr terms \<Rightarrow>
               float_of_ndarray
                 (map (\<lambda>c. (sum_list terms * c) * fundamental_charge) (scaling self))))"

text \<open>
  \<open>Site.from_site_data(site_data, defect_species, **kwargs)\<close>. The Python set
  \<open>defect_species_labels\<close> is walked in the order of first occurrence in
  \<open>site_data.defect_data\<close>; the order only decides which missing label the message names.
\<close>

definition from_site_data ::
  "real \<Rightarrow> SiteData \<Rightarrow> DefectSpecies list \<Rightarrow> (string \<times> 'a) list \<Rightarrow> error + Site"
where
  "from_site_data fundamental_charge site_data species kwargs =
     (let defect_species_labels = remdups (map dd_label (defect_data site_data));
          defect_species_to_pass =
            filter (\<lambda>ds. ds_label ds \<in> set defect_species_labels) species;
          defect_species_to_pass_labels = set (map ds_label defect_species_to_pass)
      in case find (\<lambda>l. l \<notin> defect_species_to_pass_labels) defect_species_labels of
           Some l \<Rightarrow>
             Inl (ValueError (''Could not find '' @ [CHR 0x22] @ l @ [CHR 0x22]
                    @ '' in the passed list of defect species.''))
         | None \<Rightarrow>
             Site_init fundamental_charge (sd_label site_data) (sd_x site_data)
               defect_species_to_pass (map dd_energy (defect_data site_data)) None
               (sd_valence site_data) 1)"

section \<open>pyscses/defect_at_site.py\<close>

text \<open>
  Modelled from the spec: \<open>DefectAtSite.boltzmann_factor(phi, temp)\<close>, whose module is
  not among the sources. The spec gives
  \<open>exp(-(energy + valence * fundamental_charge * phi) / (boltzmann_eV * temp))\<close>; the two
  constants of \<open>pyscses.constants\<close> are arguments.
\<close>

definition boltzmann_factor :: "real \<Rightarrow> real \<Rightarrow> DefectAtSite \<Rightarrow> real \<Rightarrow> real \<Rightarrow> real" where
  "boltzmann_factor fundamental_charge boltzmann_eV d phi temp =
     exp (- (energy d + valence d * fundamental_charge * phi) / (boltzmann_eV * temp))"

section \<open>Reading the results, and the spec's formulas\<close>

text \<open>The expression \<open>result[label]\<close> on the mapping an operation returned.\<close>

definition probability_of :: "error + (string \<rightharpoonup> real) \<Rightarrow> string \<Rightarrow> error + real" where
  "probability_of result l = (case result of Inl e \<Rightarrow> Inl e | Inr probs \<Rightarrow> getitem probs l)"

text \<open>
  The charge as section 4.4 of the spec words it, for a scalar scaling factor \<open>c\<close> and
  the probabilities \<open>ps\<close> of the defects \<open>ds\<close>, in the order of \<open>ds\<close>:
  \<open>fundamental_charge * scaling * (sum over all defects of probability * valence + site_valence)\<close>.
\<close>

definition spec_charge :: "real \<Rightarrow> real \<Rightarrow> real list \<Rightarrow> DefectAtSite list \<Rightarrow> real \<Rightarrow> real" where
  "spec_charge fundamental_charge c ps ds val =
     fundamental_charge * c * (sum_list (map2 (\<lambda>p d. p * valence d) ps ds) + val)"

text \<open>
  A species list is compatible with a \<open>SiteData\<close> record when every label of the record
  is the label of a listed species, and the listed species that carry a label of the
  record are as many as the record's entries.
\<close>

definition compatible :: "SiteData \<Rightarrow> DefectSpecies list \<Rightarrow> bool" where
  "compatible site_data species =
     (set (map dd_label (defect_data site_data)) \<subseteq> set (map ds_label species)
      \<and> length (filter (\<lambda>ds. ds_label ds \<in> set (map dd_label (defect_data site_data))) species)
          = length (defect_data site_data))"

section \<open>Example inputs\<close>

text \<open>
  The elementary charge in coulombs and the Boltzmann constant in eV/K, and the species of
  the worked example of the spec: \<open>A\<close> (valence +1, mole fraction 0.1, mobile) and \<open>B\<close>
  (valence -1, mole fraction 0.05, fixed); \<open>C\<close> is a second mobile species.
\<close>

definition q_e :: real where
  "q_e = 1602176634 / 10 ^ 28"

definition k_eV :: real where
  "k_eV = 8617333262 / 10 ^ 14"

definition species_A :: DefectSpecies where
  "species_A = \<lparr>ds_label = ''A'', ds_valence = 1, ds_mole_fraction = 1 / 10,
                 ds_mobility = 0, ds_can_equilibrate = True\<rparr>"

definition species_B :: DefectSpecies where
  "species_B = \<lparr>ds_label = ''B'', ds_valence = - 1, ds_mole_fraction = 1 / 20,
                 ds_mobility = 0, ds_can_equilibrate = False\<rparr>"


text \<open>The site with the single fixed species \<open>B\<close>, default scaling, valence 0.\<close>

definition site_B :: Site where
  "site_B = Site_assign q_e ''site'' 0 [species_B] [0] [1] 0 1"

text \<open>The same species on a site of valence 1 with the scaling array \<open>[c]\<close>.\<close>

definition site_B_scaled :: "real \<Rightarrow> Site" where
  "site_B_scaled c = Site_assign q_e ''site'' 0 [species_B] [0] [c] 1 1"

text \<open>The worked example: \<open>A\<close> with energy -0.5 eV and \<open>B\<close> with energy 0.\<close>

definition site_AB :: Site where
  "site_AB = Site_assign q_e ''site'' 0 [species_A, species_B] [- 1 / 2, 0] [1, 1] 0 1"



text \<open>A \<open>SiteData\<close> record naming \<open>A\<close> and \<open>B\<close>.\<close>

definition site_data_AB :: SiteData where
  "site_data_AB = \<lparr>sd_label = ''site'', sd_x = 0, sd_valence = 2,
                    defect_data = [\<lparr>dd_label = ''A'', dd_energy = - 1 / 2\<rparr>,
                                   \<lparr>dd_label = ''B'', dd_energy = 0\<rparr>]\<rparr>"

section \<open>Properties of project/practice.py\<close>

lemma bisect_loop_bounds:
  "lo \<le> hi \<Longrightarrow> lo \<le> bisect_loop a x lo hi \<and> bisect_loop a x lo hi \<le> hi"
proof (induction a x lo hi rule: bisect_loop.induct)
  case (1 a x lo hi)
  show ?case
  proof (cases "lo < hi")
    case False
    with "1.prems" show ?thesis by simp
  next
    case True
    define mid where "mid = (lo + hi) div 2"
    have m: "lo \<le> mid" "mid < hi" using True by (simp_all add: mid_def)
    show ?thesis
    proof (cases "a ! mid < x")
      case True
      have "mid + 1 \<le> bisect_loop a x (mid + 1) hi \<and> bisect_loop a x (mid + 1) hi \<le> hi"
        using "1.IH"(1) [OF \<open>lo < hi\<close> mid_def [symmetric, THEN sym] True] m by simp
      then show ?thesis
        using \<open>lo < hi\<close> True m by (subst bisect_loop.simps) (simp add: mid_def Let_def)
    next
      case False
      have "lo \<le> bisect_loop a x lo mid \<and> bisect_loop a x lo mid \<le> mid"
        using "1.IH"(2) [OF \<open>lo < hi\<close> mid_def [symmetric, THEN sym] False] m by simp
      then show ?thesis
        using \<open>lo < hi\<close> False m by (subst bisect_loop.simps) (simp add: mid_def Let_def)
    qed
  qed
qed

lemma bisect_loop_all_less:
  "hi \<le> length a \<Longrightarrow> \<forall>i < length a. a ! i < x \<Longrightarrow> lo \<le> hi \<Longrightarrow> bisect_loop a x lo hi = hi"
proof (induction a x lo hi rule: bisect_loop.induct)
  case (1 a x lo hi)
  show ?case
  proof (cases "lo < hi")
    case False
    with "1.prems" show ?thesis by simp
  next
    case True
    define mid where "mid = (lo + hi) div 2"
    have m: "lo \<le> mid" "mid < hi" using True by (simp_all add: mid_def)
    have lt: "a ! mid < x" using m "1.prems" by simp
    have "bisect_loop a x (mid + 1) hi = hi"
      using "1.IH"(1) [OF True mid_def [symmetric, THEN sym] lt] "1.prems" m by simp
    then show ?thesis
      using True lt by (subst bisect_loop.simps) (simp add: mid_def Let_def)
  qed
qed

lemma closest_index_past_end:
  "\<forall>i < length grid. grid ! i < x \<Longrightarrow> closest_index grid x = length grid"
proof -
  assume less: "\<forall>i < length grid. grid ! i < x"
  have "bisect_loop grid x 0 (length grid) = length grid"
    by (rule bisect_loop_all_less [OF le_refl less le0])
  then have "bisect_left grid x = length grid"
    by (simp only: bisect_left_def)
  then show ?thesis
    by (simp add: closest_index_def Let_def)
qed

text \<open>
  C9 (code evaluated at the failing input). The claim says that \<open>closest_index\<close> returns an
  index between \<open>0\<close> and \<open>len(grid) - 1\<close>, so that \<open>phi_at_x\<close> never reads \<open>phi\<close> out of
  bounds. On the sorted grid \<open>[1, 2]\<close> and \<open>x = 3\<close>, larger than every grid value, the code
  returns \<open>2 = len(grid)\<close>, and \<open>phi_at_x([10, 20], [1, 2], 3)\<close> raises IndexError.
\<close>

theorem closest_index_out_of_range:
  "closest_index [1, 2] 3 = 2 \<and> \<not> closest_index [1, 2] 3 \<le> length [1, 2 :: real] - 1
   \<and> phi_at_x [10, 20] [1, 2] 3 = Inl IndexError"
proof -
  have "closest_index [1, 2] 3 = length [1, 2 :: real]"
    by (rule closest_index_past_end) (simp add: less_Suc_eq)
  then show ?thesis
    by (simp add: phi_at_x_def index_of_grid_at_x_def)
qed

section \<open>Comprehensions and dictionaries\<close>

lemma list_comp_Inr:
  "(\<And>x. x \<in> set xs \<Longrightarrow> f x = Inr (g x)) \<Longrightarrow> list_comp f xs = Inr (map g xs)"
  by (induction xs) auto

lemma list_comp_Inl_elem:
  "list_comp f xs = Inl e \<Longrightarrow> \<exists>x\<in>set xs. f x = Inl e"
  by (induction xs) (auto split: sum.splits)

lemma list_comp_fails:
  "x \<in> set xs \<Longrightarrow> f x = Inl e \<Longrightarrow> \<exists>e'. list_comp f xs = Inl e'"
  by (induction xs) (auto split: sum.splits)

lemma store_other:
  "l \<notin> k ` set ds \<Longrightarrow> foldl (\<lambda>m d. m(k d \<mapsto> v d)) m0 ds l = m0 l"
  by (induction ds rule: rev_induct) auto

lemma store_dom:
  "dom (foldl (\<lambda>m d. m(k d \<mapsto> v d)) m0 ds) = dom m0 \<union> k ` set ds"
  by (induction ds rule: rev_induct) (auto simp: dom_def split: if_splits)

lemma store_distinct:
  "distinct (map k ds) \<Longrightarrow> d \<in> set ds \<Longrightarrow> foldl (\<lambda>m d. m(k d \<mapsto> v d)) m0 ds (k d) = Some (v d)"
  by (induction ds rule: rev_induct) (auto simp: image_iff)

lemma dict_comp_store: "dict_comp kvs = foldl (\<lambda>m d. m(fst d \<mapsto> snd d)) Map.empty kvs"
  by (simp add: dict_comp_def case_prod_unfold)

lemma dict_comp_distinct:
  "distinct (map fst kvs) \<Longrightarrow> (k, v) \<in> set kvs \<Longrightarrow> dict_comp kvs k = Some v"
  using store_distinct [of fst kvs "(k, v)" snd Map.empty] by (simp add: dict_comp_store)

lemma dom_dict_comp: "dom (dict_comp kvs) = fst ` set kvs"
  by (simp add: dict_comp_store store_dom)


lemma Site_assign_fields:
  "defects (Site_assign fc lbl xpos species energies sc val sat) = map make_defect (zip species energies)"
  "fixed_defects (Site_assign fc lbl xpos species energies sc val sat)
     = filter (\<lambda>d. \<not> can_equilibrate d) (map make_defect (zip species energies))"
  "mobile_defects (Site_assign fc lbl xpos species energies sc val sat)
     = filter (\<lambda>d. can_equilibrate d) (map make_defect (zip species energies))"
  "alpha (Site_assign fc lbl xpos species energies sc val sat)
     = sat - sum_list (map mole_fraction
               (filter (\<lambda>d. \<not> can_equilibrate d) (map make_defect (zip species energies))))"
  "scaling (Site_assign fc lbl xpos species energies sc val sat) = sc"
  "site_valence (Site_assign fc lbl xpos species energies sc val sat) = val"
  "saturation_parameter (Site_assign fc lbl xpos species energies sc val sat) = sat"
  "grid_point (Site_assign fc lbl xpos species energies sc val sat) = None"
  by (simp_all add: Site_assign_def Let_def)

lemma Site_init_Inr:
  assumes "Site_init fc lbl xpos species energies scaling_arg val sat = Inr s"
  shows "length species = length energies"
    and "\<exists>sc. s = Site_assign fc lbl xpos species energies sc val sat \<and> length sc = length energies"
  using assms
  by (auto simp: Site_init_def ones_like_def split: if_splits sum.splits bool.splits option.splits)

lemma Site_init_fields:
  assumes "Site_init fc lbl xpos species energies scaling_arg val sat = Inr s"
  shows "defects s = map make_defect (zip species energies)"
    and "fixed_defects s = filter (\<lambda>d. \<not> can_equilibrate d) (defects s)"
    and "mobile_defects s = filter (\<lambda>d. can_equilibrate d) (defects s)"
    and "alpha s = sat - sum_list (map mole_fraction (fixed_defects s))"
    and "length (scaling s) = length (defects s)"
    and "site_valence s = val"
    and "saturation_parameter s = sat"
    and "grid_point s = None"
    and "map label (defects s) = map ds_label species"
proof -
  from Site_init_Inr [OF assms] obtain sc where
    len: "length species = length energies" and
    s: "s = Site_assign fc lbl xpos species energies sc val sat" and
    sc: "length sc = length energies"
    by blast
  show "defects s = map make_defect (zip species energies)"
    and "fixed_defects s = filter (\<lambda>d. \<not> can_equilibrate d) (defects s)"
    and "mobile_defects s = filter (\<lambda>d. can_equilibrate d) (defects s)"
    and "alpha s = sat - sum_list (map mole_fraction (fixed_defects s))"
    and "site_valence s = val"
    and "saturation_parameter s = sat"
    and "grid_point s = None"
    by (simp_all add: s Site_assign_fields)
  show "length (scaling s) = length (defects s)"
    by (simp add: s Site_assign_fields sc len)
  have "map label (map make_defect (zip species energies)) = map (ds_label \<circ> fst) (zip species energies)"
    by (simp add: make_defect_def comp_def)
  also have "\<dots> = map ds_label (map fst (zip species energies))"
    by simp
  also have "\<dots> = map ds_label species"
    using len by (simp only: map_fst_zip)
  finally show "map label (defects s) = map ds_label species"
    by (simp add: s Site_assign_fields)
qed


lemma probabilities_loop_dom:
  "probabilities_loop s bfs den ds acc = Inr P \<Longrightarrow> dom P = dom acc \<union> label ` set ds"
proof (induction ds arbitrary: acc)
  case Nil
  then show ?case by simp
next
  case (Cons d ds)
  show ?case
  proof (cases "can_equilibrate d")
    case False
    with Cons.prems have "probabilities_loop s bfs den ds (acc(label d \<mapsto> mole_fraction d)) = Inr P"
      by simp
    from Cons.IH [OF this] show ?thesis by auto
  next
    case True
    with Cons.prems obtain p where
      "probabilities_loop s bfs den ds (acc(label d \<mapsto> p)) = Inr P"
      by (auto split: sum.splits)
    from Cons.IH [OF this] show ?thesis by auto
  qed
qed

lemma probabilities_loop_Inr:
  assumes "\<And>d. d \<in> set ds \<Longrightarrow> can_equilibrate d \<Longrightarrow> bfs (label d) = Some (b d)"
    and "den \<noteq> 0 \<or> (\<forall>d\<in>set ds. \<not> can_equilibrate d)"
  shows "probabilities_loop s bfs den ds acc =
           Inr (foldl (\<lambda>m d. m(label d \<mapsto>
                  (if can_equilibrate d then alpha s * mole_fraction d * b d / den
                   else mole_fraction d))) acc ds)"
  using assms
proof (induction ds arbitrary: acc)
  case Nil
  show ?case by simp
next
  case (Cons d ds)
  have IH: "\<And>acc. probabilities_loop s bfs den ds acc =
           Inr (foldl (\<lambda>m d. m(label d \<mapsto>
                  (if can_equilibrate d then alpha s * mole_fraction d * b d / den
                   else mole_fraction d))) acc ds)"
    using Cons.prems by (intro Cons.IH) auto
  show ?case
  proof (cases "can_equilibrate d")
    case False
    then show ?thesis by (simp add: IH del: fun_upd_apply)
  next
    case True
    have "bfs (label d) = Some (b d)" using Cons.prems(1) True by simp
    moreover have "den \<noteq> 0" using Cons.prems(2) True by auto
    ultimately show ?thesis using True
      by (simp add: IH getitem_def truediv_def del: fun_upd_apply)
  qed
qed

lemma probabilities_loop_zero:
  assumes "\<And>d. d \<in> set ds \<Longrightarrow> can_equilibrate d \<Longrightarrow> bfs (label d) \<noteq> None"
    and "\<exists>d\<in>set ds. can_equilibrate d"
  shows "probabilities_loop s bfs 0 ds acc = Inl ZeroDivisionError"
  using assms
proof (induction ds arbitrary: acc)
  case Nil
  then show ?case by simp
next
  case (Cons d ds)
  show ?case
  proof (cases "can_equilibrate d")
    case True
    with Cons.prems(1) [of d] obtain v where "bfs (label d) = Some v" by auto
    with True show ?thesis by (simp add: getitem_def truediv_def)
  next
    case False
    with Cons.prems(2) have "\<exists>d\<in>set ds. can_equilibrate d" by auto
    with Cons.prems(1) have "\<And>acc. probabilities_loop s bfs 0 ds acc = Inl ZeroDivisionError"
      by (intro Cons.IH) auto
    with False show ?thesis by simp
  qed
qed

lemma mobile_loop_dom:
  "mobile_loop s bfs den ds acc = Inr P \<Longrightarrow>
     dom P = dom acc \<union> label ` {d \<in> set ds. can_equilibrate d}"
proof (induction ds arbitrary: acc)
  case Nil
  then show ?case by simp
next
  case (Cons d ds)
  show ?case
  proof (cases "can_equilibrate d")
    case False
    with Cons.prems have "mobile_loop s bfs den ds acc = Inr P" by simp
    from Cons.IH [OF this] False show ?thesis by auto
  next
    case True
    with Cons.prems obtain p where "mobile_loop s bfs den ds (acc(label d \<mapsto> p)) = Inr P"
      by (auto split: sum.splits)
    from Cons.IH [OF this] True show ?thesis by (auto split: if_splits)
  qed
qed


lemma boltzmann_factors_dom:
  "dom (boltzmann_factors bf s phi temp) = label ` set (mobile_defects s)"
  by (simp add: boltzmann_factors_def dom_dict_comp image_image)

lemma boltzmann_factors_distinct:
  assumes "distinct (map label (mobile_defects s))" and "d \<in> set (mobile_defects s)"
  shows "boltzmann_factors bf s phi temp (label d) = Some (bf d phi temp)"
proof -
  have "distinct (map fst (map (\<lambda>d. (label d, bf d phi temp)) (mobile_defects s)))"
    using assms(1) by (simp add: comp_def)
  moreover have "(label d, bf d phi temp) \<in> set (map (\<lambda>d. (label d, bf d phi temp)) (mobile_defects s))"
    using assms(2) by auto
  ultimately show ?thesis
    unfolding boltzmann_factors_def by (rule dict_comp_distinct)
qed

lemma denominator_total:
  "\<exists>den. denominator bf s phi temp = Inr den"
proof -
  have "\<And>d. d \<in> set (mobile_defects s) \<Longrightarrow>
          (case getitem (boltzmann_factors bf s phi temp) (label d) of
             Inl e \<Rightarrow> Inl e | Inr b \<Rightarrow> Inr (mole_fraction d * (b - 1)))
          = Inr (mole_fraction d * (the (boltzmann_factors bf s phi temp (label d)) - 1))"
  proof -
    fix d assume "d \<in> set (mobile_defects s)"
    then have "label d \<in> dom (boltzmann_factors bf s phi temp)"
      by (simp add: boltzmann_factors_dom)
    then show "(case getitem (boltzmann_factors bf s phi temp) (label d) of
             Inl e \<Rightarrow> Inl e | Inr b \<Rightarrow> Inr (mole_fraction d * (b - 1)))
          = Inr (mole_fraction d * (the (boltzmann_factors bf s phi temp (label d)) - 1))"
      by (auto simp: getitem_def)
  qed
  from list_comp_Inr [of "mobile_defects s", OF this] show ?thesis
    by (simp add: denominator_def)
qed

lemma denominator_distinct:
  assumes "distinct (map label (mobile_defects s))"
  shows "denominator bf s phi temp =
           Inr (alpha s + (\<Sum>d\<leftarrow>mobile_defects s. mole_fraction d * (bf d phi temp - 1)))"
proof -
  have "\<And>d. d \<in> set (mobile_defects s) \<Longrightarrow>
          (case getitem (boltzmann_factors bf s phi temp) (label d) of
             Inl e \<Rightarrow> Inl e | Inr b \<Rightarrow> Inr (mole_fraction d * (b - 1)))
          = Inr (mole_fraction d * (bf d phi temp - 1))"
    by (simp add: getitem_def boltzmann_factors_distinct [OF assms])
  from list_comp_Inr [of "mobile_defects s", OF this] show ?thesis
    by (simp add: denominator_def)
qed

section \<open>Occupation probabilities\<close>

lemma probabilities_distinct:
  assumes init: "Site_init fc lbl xpos species energies scaling_arg val sat = Inr s"
    and dist: "distinct (map ds_label species)"
    and den: "mobile_defects s \<noteq> [] \<longrightarrow>
                alpha s + (\<Sum>m\<leftarrow>mobile_defects s. mole_fraction m * (bf m phi temp - 1)) \<noteq> 0"
  shows "\<exists>probs. probabilities bf s phi temp = Inr probs
          \<and> dom probs = set (map label (defects s))
          \<and> (\<forall>d\<in>set (defects s). probs (label d) =
                Some (if can_equilibrate d
                      then alpha s * mole_fraction d * bf d phi temp
                           / (alpha s + (\<Sum>m\<leftarrow>mobile_defects s. mole_fraction m * (bf m phi temp - 1)))
                      else mole_fraction d))"
proof -
  note f = Site_init_fields [OF init]
  define D where "D = alpha s + (\<Sum>m\<leftarrow>mobile_defects s. mole_fraction m * (bf m phi temp - 1))"
  have dl: "distinct (map label (defects s))"
    using dist by (simp add: f(9))
  have dm: "distinct (map label (mobile_defects s))"
    using dl by (simp add: f(3) distinct_map_filter)
  have denom: "denominator bf s phi temp = Inr D"
    by (simp add: denominator_distinct [OF dm] D_def)
  have look: "\<And>d. d \<in> set (defects s) \<Longrightarrow> can_equilibrate d \<Longrightarrow>
                boltzmann_factors bf s phi temp (label d) = Some (bf d phi temp)"
    by (rule boltzmann_factors_distinct [OF dm]) (simp add: f(3))
  have nz: "D \<noteq> 0 \<or> (\<forall>d\<in>set (defects s). \<not> can_equilibrate d)"
  proof (cases "mobile_defects s = []")
    case True
    then show ?thesis by (simp add: f(3) filter_empty_conv)
  next
    case False
    with den show ?thesis by (simp add: D_def)
  qed
  define pv where "pv = (\<lambda>d. if can_equilibrate d then alpha s * mole_fraction d * bf d phi temp / D
                             else mole_fraction d)"
  have loop: "probabilities_loop s (boltzmann_factors bf s phi temp) D (defects s) Map.empty
                = Inr (foldl (\<lambda>m d. m(label d \<mapsto> pv d)) Map.empty (defects s))"
    unfolding pv_def
    by (rule probabilities_loop_Inr [where b = "\<lambda>d. bf d phi temp", OF look nz])
  have res: "probabilities bf s phi temp = Inr (foldl (\<lambda>m d. m(label d \<mapsto> pv d)) Map.empty (defects s))"
    by (simp add: probabilities_def denom loop)
  have "dom (foldl (\<lambda>m d. m(label d \<mapsto> pv d)) Map.empty (defects s)) = set (map label (defects s))"
    by (simp add: store_dom)
  moreover have "\<forall>d\<in>set (defects s). foldl (\<lambda>m d. m(label d \<mapsto> pv d)) Map.empty (defects s) (label d) = Some (pv d)"
    using store_distinct [OF dl] by blast
  ultimately show ?thesis
    unfolding res pv_def D_def by blast
qed



text \<open>
  C3. For every Site and every \<open>(phi, temp)\<close> with \<open>temp > 0\<close>, \<open>probabilities(phi, temp)\<close>
  maps the label of each fixed species to its bulk mole fraction and the label of each
  mobile species to \<open>alpha * mole_fraction * boltzmann_factor / denominator\<close>, where
  \<open>denominator = alpha + sum over mobile species of mole_fraction * (boltzmann_factor - 1)\<close>
  and \<open>alpha = saturation_parameter - sum of the fixed mole fractions\<close>, every Boltzmann
  factor taken at \<open>(phi, temp)\<close>. The Site is one the constructor returned, its species
  labels are unique, and the denominator is not zero when a mobile species divides by it.
\<close>

theorem probabilities_formula:
  assumes "Site_init fc lbl xpos species energies scaling_arg val sat = Inr s"
    and "0 < temp"
    and "distinct (map ds_label species)"
    and "mobile_defects s \<noteq> [] \<longrightarrow>
           alpha s + (\<Sum>m\<leftarrow>mobile_defects s. mole_fraction m * (bf m phi temp - 1)) \<noteq> 0"
  shows "\<exists>probs. probabilities bf s phi temp = Inr probs
          \<and> dom probs = set (map label (defects s))
          \<and> (\<forall>d\<in>set (defects s). probs (label d) =
                Some (if can_equilibrate d
                      then alpha s * mole_fraction d * bf d phi temp
                           / (alpha s + (\<Sum>m\<leftarrow>mobile_defects s. mole_fraction m * (bf m phi temp - 1)))
                      else mole_fraction d))
          \<and> alpha s = sat - (\<Sum>f\<leftarrow>fixed_defects s. mole_fraction f)
          \<and> fixed_defects s = filter (\<lambda>d. \<not> can_equilibrate d) (defects s)
          \<and> mobile_defects s = filter (\<lambda>d. can_equilibrate d) (defects s)"
proof -
  note f = Site_init_fields [OF assms(1)]
  from probabilities_distinct [where bf = bf and phi = phi and temp = temp,
      OF assms(1) assms(3) assms(4)] f(2) f(3) f(4)
  show ?thesis by blast
qed


lemma site_AB_init:
  "Site_init q_e ''site'' 0 [species_A, species_B] [- 1 / 2, 0] None 0 1 = Inr site_AB"
  by (simp add: Site_init_def site_AB_def ones_like_def)

lemma site_AB_fields:
  "defects site_AB = [make_defect (species_A, - 1 / 2), make_defect (species_B, 0)]"
  "mobile_defects site_AB = [make_defect (species_A, - 1 / 2)]"
  "fixed_defects site_AB = [make_defect (species_B, 0)]"
  "alpha site_AB = 19 / 20"
  by (simp_all add: site_AB_def Site_assign_fields make_defect_def species_A_def species_B_def)

lemma positive_factor_denominator:
  "0 < (b :: real) \<Longrightarrow> 0 < 19 / 20 + 1 / 10 * (b - 1)"
  by (simp add: field_simps)

lemma site_AB_denominator:
  "alpha site_AB + (\<Sum>m\<leftarrow>mobile_defects site_AB. mole_fraction m * (boltzmann_factor q_e k_eV m 0 300 - 1)) \<noteq> 0"
proof -
  define b where "b = boltzmann_factor q_e k_eV (make_defect (species_A, - 1 / 2)) 0 300"
  have "0 < b"
    by (simp add: b_def boltzmann_factor_def)
  from positive_factor_denominator [OF this]
  have "19 / 20 + 1 / 10 * (b - 1) \<noteq> 0" by simp
  moreover have "alpha site_AB + (\<Sum>m\<leftarrow>mobile_defects site_AB.
      mole_fraction m * (boltzmann_factor q_e k_eV m 0 300 - 1)) = 19 / 20 + 1 / 10 * (b - 1)"
    by (simp add: site_AB_fields b_def) (simp add: make_defect_def species_A_def)
  ultimately show ?thesis by simp
qed

theorem probabilities_formula_witness:
  "Site_init q_e ''site'' 0 [species_A, species_B] [- 1 / 2, 0] None 0 1 = Inr site_AB
   \<and> (0 :: real) < 300
   \<and> distinct (map ds_label [species_A, species_B])
   \<and> probability_of (probabilities (boltzmann_factor q_e k_eV) site_AB 0 300) ''B'' = Inr (1 / 20)
   \<and> probability_of (probabilities (boltzmann_factor q_e k_eV) site_AB 0 300) ''A''
       = Inr (19 / 20 * (1 / 10) * boltzmann_factor q_e k_eV (make_defect (species_A, - 1 / 2)) 0 300
              / (19 / 20 + 1 / 10 * (boltzmann_factor q_e k_eV (make_defect (species_A, - 1 / 2)) 0 300 - 1)))"
proof -
  have dist: "distinct (map ds_label [species_A, species_B])"
    by (simp add: species_A_def species_B_def)
  have den: "mobile_defects site_AB \<noteq> [] \<longrightarrow>
     alpha site_AB + (\<Sum>m\<leftarrow>mobile_defects site_AB. mole_fraction m * (boltzmann_factor q_e k_eV m 0 300 - 1)) \<noteq> 0"
    using site_AB_denominator by simp
  have pos: "(0 :: real) < 300" by simp
  from probabilities_formula [where bf = "boltzmann_factor q_e k_eV" and phi = 0 and temp = 300,
      OF site_AB_init pos dist den]
  obtain probs where
    p: "probabilities (boltzmann_factor q_e k_eV) site_AB 0 300 = Inr probs" and
    v: "\<forall>d\<in>set (defects site_AB). probs (label d) =
          Some (if can_equilibrate d
                then alpha site_AB * mole_fraction d * boltzmann_factor q_e k_eV d 0 300
                     / (alpha site_AB + (\<Sum>m\<leftarrow>mobile_defects site_AB.
                          mole_fraction m * (boltzmann_factor q_e k_eV m 0 300 - 1)))
                else mole_fraction d)"
    by blast
  have b: "probs ''B'' = Some (1 / 20)"
    using v by (simp add: site_AB_fields make_defect_def species_A_def species_B_def)
  have a: "probs ''A'' = Some (19 / 20 * (1 / 10) * boltzmann_factor q_e k_eV (make_defect (species_A, - 1 / 2)) 0 300
              / (19 / 20 + 1 / 10 * (boltzmann_factor q_e k_eV (make_defect (species_A, - 1 / 2)) 0 300 - 1)))"
    using v by (simp add: site_AB_fields make_defect_def species_A_def species_B_def)
  show ?thesis
    using site_AB_init dist by (simp add: probability_of_def p getitem_def a b)
qed

lemma probabilities_no_mobile:
  assumes "mobile_defects s = []" and "\<forall>d\<in>set (defects s). \<not> can_equilibrate d"
  shows "probabilities bf s phi temp
           = Inr (foldl (\<lambda>m d. m(label d \<mapsto> mole_fraction d)) Map.empty (defects s))"
proof -
  have den: "denominator bf s phi temp = Inr (alpha s)"
    by (simp add: denominator_def assms(1))
  have "probabilities_loop s (boltzmann_factors bf s phi temp) (alpha s) (defects s) Map.empty
          = Inr (foldl (\<lambda>m d. m(label d \<mapsto>
                   (if can_equilibrate d then alpha s * mole_fraction d * (0 :: real) / alpha s
                    else mole_fraction d))) Map.empty (defects s))"
    by (rule probabilities_loop_Inr [where b = "\<lambda>d. 0"]) (use assms(2) in auto)
  also have "foldl (\<lambda>m d. m(label d \<mapsto>
                   (if can_equilibrate d then alpha s * mole_fraction d * (0 :: real) / alpha s
                    else mole_fraction d))) Map.empty (defects s)
        = foldl (\<lambda>m d. m(label d \<mapsto> mole_fraction d)) Map.empty (defects s)"
    using assms(2) by (intro foldl_cong refl) simp
  finally show ?thesis
    by (simp add: probabilities_def den)
qed

text \<open>
  C4. For every Site whose \<open>mobile_defects\<close> is empty and every two inputs
  \<open>(phi1, temp1)\<close>, \<open>(phi2, temp2)\<close>, \<open>probabilities\<close> returns the same mapping for both;
  its keys are the defect labels and, the labels being unique, it assigns to each species
  its bulk mole fraction.
\<close>

theorem probabilities_fixed_only:
  assumes "Site_init fc lbl xpos species energies scaling_arg val sat = Inr s"
    and "mobile_defects s = []"
  shows "probabilities bf s phi1 temp1 = probabilities bf s phi2 temp2
         \<and> (\<exists>probs. probabilities bf s phi1 temp1 = Inr probs
               \<and> dom probs = set (map label (defects s))
               \<and> (distinct (map ds_label species) \<longrightarrow>
                    (\<forall>d\<in>set (defects s). probs (label d) = Some (mole_fraction d))))"
proof -
  note f = Site_init_fields [OF assms(1)]
  have nm: "\<forall>d\<in>set (defects s). \<not> can_equilibrate d"
    using assms(2) by (simp add: f(3) filter_empty_conv)
  note r = probabilities_no_mobile [OF assms(2) nm]
  have "dom (foldl (\<lambda>m d. m(label d \<mapsto> mole_fraction d)) Map.empty (defects s))
          = set (map label (defects s))"
    by (simp add: store_dom)
  moreover have "distinct (map ds_label species) \<longrightarrow>
     (\<forall>d\<in>set (defects s).
        foldl (\<lambda>m d. m(label d \<mapsto> mole_fraction d)) Map.empty (defects s) (label d)
          = Some (mole_fraction d))"
    using store_distinct [of label "defects s" _ mole_fraction Map.empty] by (simp add: f(9))
  ultimately show ?thesis
    by (simp only: r) blast
qed

lemma site_B_init:
  "Site_init q_e ''site'' 0 [species_B] [0] None 0 1 = Inr site_B"
  by (simp add: Site_init_def site_B_def ones_like_def)

lemma site_B_fields:
  "defects site_B = [make_defect (species_B, 0)]"
  "mobile_defects site_B = []"
  "fixed_defects site_B = [make_defect (species_B, 0)]"
  "alpha site_B = 19 / 20"
  "scaling site_B = [1]"
  "grid_point site_B = None"
  by (simp_all add: site_B_def Site_assign_fields make_defect_def species_B_def)

theorem probabilities_fixed_only_witness:
  "Site_init q_e ''site'' 0 [species_B] [0] None 0 1 = Inr site_B
   \<and> mobile_defects site_B = []
   \<and> probabilities (boltzmann_factor q_e k_eV) site_B 0 300
       = probabilities (boltzmann_factor q_e k_eV) site_B (1 / 2) 1000
   \<and> probability_of (probabilities (boltzmann_factor q_e k_eV) site_B 0 300) ''B'' = Inr (1 / 20)"
proof -
  from probabilities_fixed_only [where bf = "boltzmann_factor q_e k_eV" and ?phi1.0 = 0
      and ?temp1.0 = 300 and ?phi2.0 = "1 / 2" and ?temp2.0 = 1000,
      OF site_B_init site_B_fields(2)]
  obtain probs where
    e: "probabilities (boltzmann_factor q_e k_eV) site_B 0 300
          = probabilities (boltzmann_factor q_e k_eV) site_B (1 / 2) 1000" and
    p: "probabilities (boltzmann_factor q_e k_eV) site_B 0 300 = Inr probs" and
    v: "distinct (map ds_label [species_B]) \<longrightarrow>
          (\<forall>d\<in>set (defects site_B). probs (label d) = Some (mole_fraction d))"
    by blast
  have "probs ''B'' = Some (1 / 20)"
    using v by (simp add: site_B_fields make_defect_def species_B_def)
  then have "probability_of (probabilities (boltzmann_factor q_e k_eV) site_B 0 300) ''B''
               = Inr (1 / 20)"
    by (simp add: probability_of_def p getitem_def)
  with site_B_init site_B_fields(2) e show ?thesis
    by (intro conjI)
qed


lemma probabilities_dom:
  "probabilities bf s phi temp = Inr probs \<Longrightarrow> dom probs = label ` set (defects s)"
  by (auto simp: probabilities_def split: sum.splits dest!: probabilities_loop_dom)

lemma mobile_defect_probabilities_dom:
  "mobile_defect_probabilities bf s phi temp = Inr probs \<Longrightarrow>
     dom probs = label ` {d \<in> set (defects s). can_equilibrate d}"
  by (auto simp: mobile_defect_probabilities_def split: sum.splits dest!: mobile_loop_dom)

lemma getitem_all:
  assumes "label ` set ds \<subseteq> dom probs"
  shows "\<exists>vs. list_comp (\<lambda>d. getitem probs (label d)) ds = Inr vs
           \<and> map (\<lambda>d. probs (label d)) ds = map Some vs"
proof -
  have "\<And>d. d \<in> set ds \<Longrightarrow> getitem probs (label d) = Inr (the (probs (label d)))"
    using assms by (auto simp: getitem_def)
  from list_comp_Inr [of ds, OF this]
  have "list_comp (\<lambda>d. getitem probs (label d)) ds = Inr (map (\<lambda>d. the (probs (label d))) ds)" .
  moreover have "map (\<lambda>d. probs (label d)) ds = map Some (map (\<lambda>d. the (probs (label d))) ds)"
    using assms by auto
  ultimately show ?thesis by blast
qed

text \<open>
  C6. For every Site and every \<open>(phi, temp)\<close>, \<open>probabilities_as_list(phi, temp)\<close> issues
  its deprecation warning and goes on: where \<open>probabilities(phi, temp)\<close> raises it raises
  the same exception, and where \<open>probabilities\<close> returns a mapping it returns the values
  of that mapping in the order of \<open>defects\<close>.
\<close>

theorem probabilities_as_list_equivalent:
  "fst (probabilities_as_list bf s phi temp) =
     [DeprecationWarning ''Site.probabilities_as_list() is deprecated and targeted for removal. Please use Site.probabilities() instead.'']
   \<and> (case probabilities bf s phi temp of
         Inl e \<Rightarrow> snd (probabilities_as_list bf s phi temp) = Inl e
       | Inr probs \<Rightarrow>
           (\<exists>vs. snd (probabilities_as_list bf s phi temp) = Inr vs
              \<and> map (\<lambda>d. probs (label d)) (defects s) = map Some vs))"
proof (cases "probabilities bf s phi temp")
  case (Inl e)
  then show ?thesis by (simp add: probabilities_as_list_def)
next
  case (Inr probs)
  from probabilities_dom [OF this] have "label ` set (defects s) \<subseteq> dom probs" by simp
  from getitem_all [OF this] Inr show ?thesis
    by (simp add: probabilities_as_list_def)
qed

lemma site_AB_probabilities:
  "\<exists>probs. probabilities (boltzmann_factor q_e k_eV) site_AB 0 300 = Inr probs
     \<and> probs ''B'' = Some (1 / 20)
     \<and> probs ''A'' = Some (19 / 20 * (1 / 10)
           * boltzmann_factor q_e k_eV (make_defect (species_A, - 1 / 2)) 0 300
           / (19 / 20 + 1 / 10 * (boltzmann_factor q_e k_eV (make_defect (species_A, - 1 / 2)) 0 300 - 1)))"
proof -
  have dist: "distinct (map ds_label [species_A, species_B])"
    by (simp add: species_A_def species_B_def)
  have den: "mobile_defects site_AB \<noteq> [] \<longrightarrow>
     alpha site_AB + (\<Sum>m\<leftarrow>mobile_defects site_AB. mole_fraction m * (boltzmann_factor q_e k_eV m 0 300 - 1)) \<noteq> 0"
    using site_AB_denominator by simp
  from probabilities_distinct [where bf = "boltzmann_factor q_e k_eV" and phi = 0 and temp = 300,
      OF site_AB_init dist den]
  obtain probs where
    p: "probabilities (boltzmann_factor q_e k_eV) site_AB 0 300 = Inr probs" and
    v: "\<forall>d\<in>set (defects site_AB). probs (label d) =
          Some (if can_equilibrate d
                then alpha site_AB * mole_fraction d * boltzmann_factor q_e k_eV d 0 300
                     / (alpha site_AB + (\<Sum>m\<leftarrow>mobile_defects site_AB.
                          mole_fraction m * (boltzmann_factor q_e k_eV m 0 300 - 1)))
                else mole_fraction d)"
    by blast
  have "probs ''B'' = Some (1 / 20)"
    using v by (simp add: site_AB_fields make_defect_def species_A_def species_B_def)
  moreover have "probs ''A'' = Some (19 / 20 * (1 / 10) * boltzmann_factor q_e k_eV (make_defect (species_A, - 1 / 2)) 0 300
              / (19 / 20 + 1 / 10 * (boltzmann_factor q_e k_eV (make_defect (species_A, - 1 / 2)) 0 300 - 1)))"
    using v by (simp add: site_AB_fields make_defect_def species_A_def species_B_def)
  ultimately show ?thesis using p by blast
qed

theorem probabilities_as_list_equivalent_witness:
  "snd (probabilities_as_list (boltzmann_factor q_e k_eV) site_AB 0 300)
     = Inr [19 / 20 * (1 / 10)
              * boltzmann_factor q_e k_eV (make_defect (species_A, - 1 / 2)) 0 300
              / (19 / 20 + 1 / 10 * (boltzmann_factor q_e k_eV (make_defect (species_A, - 1 / 2)) 0 300 - 1)),
            1 / 20]"
proof -
  from site_AB_probabilities obtain probs where
    p: "probabilities (boltzmann_factor q_e k_eV) site_AB 0 300 = Inr probs" and
    b: "probs ''B'' = Some (1 / 20)" and
    a: "probs ''A'' = Some (19 / 20 * (1 / 10)
           * boltzmann_factor q_e k_eV (make_defect (species_A, - 1 / 2)) 0 300
           / (19 / 20 + 1 / 10 * (boltzmann_factor q_e k_eV (make_defect (species_A, - 1 / 2)) 0 300 - 1)))"
    by blast
  from probabilities_as_list_equivalent [of "boltzmann_factor q_e k_eV" site_AB 0 300]
  obtain vs where
    r: "snd (probabilities_as_list (boltzmann_factor q_e k_eV) site_AB 0 300) = Inr vs" and
    m: "map (\<lambda>d. probs (label d)) (defects site_AB) = map Some vs"
    by (auto simp: p)
  have "map (\<lambda>d. probs (label d)) (defects site_AB)
          = map Some [19 / 20 * (1 / 10)
              * boltzmann_factor q_e k_eV (make_defect (species_A, - 1 / 2)) 0 300
              / (19 / 20 + 1 / 10 * (boltzmann_factor q_e k_eV (make_defect (species_A, - 1 / 2)) 0 300 - 1)),
            1 / 20]"
    by (simp add: site_AB_fields a b) (simp add: make_defect_def species_A_def species_B_def a b)
  with m have "vs = [19 / 20 * (1 / 10)
              * boltzmann_factor q_e k_eV (make_defect (species_A, - 1 / 2)) 0 300
              / (19 / 20 + 1 / 10 * (boltzmann_factor q_e k_eV (make_defect (species_A, - 1 / 2)) 0 300 - 1)),
            1 / 20]"
    by (simp only: inj_map_eq_map [OF inj_Some])
  with r show ?thesis by simp
qed

section \<open>Charge from mobile defects, and the missing grid point\<close>

lemma charge_from_mobile_defects_fails:
  assumes "d \<in> set (defects s)"
    and "label d \<notin> label ` {m \<in> set (defects s). can_equilibrate m}"
  shows "\<exists>e. charge_from_mobile_defects bf fc s phi temp = Inl e"
proof (cases "mobile_defect_probabilities bf s phi temp")
  case (Inl e)
  then show ?thesis by (simp add: charge_from_mobile_defects_def)
next
  case (Inr probs)
  from mobile_defect_probabilities_dom [OF this] assms(2) have "probs (label d) = None"
    by auto
  then have "weighted_valence probs d = Inl (KeyError (label d))"
    by (simp add: weighted_valence_def getitem_def)
  from list_comp_fails [where f = "weighted_valence probs", OF assms(1) this] Inr show ?thesis
    by (auto simp: charge_from_mobile_defects_def)
qed

lemma site_B_mobile_probabilities:
  "mobile_defect_probabilities bf site_B phi temp = Inr Map.empty"
  by (simp add: mobile_defect_probabilities_def denominator_def site_B_fields
      make_defect_def species_B_def)

text \<open>
  C1 (code evaluated at the failing input). The claim says that on a Site with a fixed
  defect \<open>charge_from_mobile_defects\<close> returns a number, the fixed species counting as
  zero. On the Site with the single fixed species \<open>B\<close> the mobile-only mapping is empty
  and the sum over all defects reads \<open>mobile_defect_probabilities['B']\<close>: KeyError.
\<close>

theorem charge_from_mobile_defects_KeyError:
  "Site_init q_e ''site'' 0 [species_B] [0] None 0 1 = Inr site_B
   \<and> fixed_defects site_B = [make_defect (species_B, 0)]
   \<and> mobile_defect_probabilities (boltzmann_factor q_e k_eV) site_B 0 300 = Inr Map.empty
   \<and> charge_from_mobile_defects (boltzmann_factor q_e k_eV) q_e site_B 0 300 = Inl (KeyError ''B'')"
proof -
  have "charge_from_mobile_defects (boltzmann_factor q_e k_eV) q_e site_B 0 300 = Inl (KeyError ''B'')"
    by (simp add: charge_from_mobile_defects_def site_B_mobile_probabilities site_B_fields
        weighted_valence_def getitem_def)
      (simp add: make_defect_def species_B_def)
  with site_B_init site_B_fields(3) site_B_mobile_probabilities show ?thesis
    by (intro conjI)
qed

text \<open>
  C8 (code evaluated at the failing input). The claim says that, without a grid point,
  \<open>average_local_energy\<close> fails with an error of its own kind. The Site \<open>B\<close> has no grid
  point; for both methods the code raises \<open>ValueError\<close> with the message \<open>TODO\<close>, the
  exception class that the constructor raises for lists of unequal length.
\<close>

theorem average_local_energy_ValueError:
  "Site_init q_e ''site'' 0 [species_B] [0] None 0 1 = Inr site_B
   \<and> grid_point site_B = None
   \<and> average_local_energy site_B ''mean'' = Inl (ValueError ''TODO'')
   \<and> average_local_energy site_B ''min'' = Inl (ValueError ''TODO'')
   \<and> Site_init q_e ''site'' 0 [species_B] [] None 0 1
       = Inl (ValueError ''len(defect_species) must be equal to len(defect_energies)'')"
proof -
  have "average_local_energy site_B ''mean'' = Inl (ValueError ''TODO'')"
    and "average_local_energy site_B ''min'' = Inl (ValueError ''TODO'')"
    by (simp_all add: average_local_energy_def site_B_fields)
  moreover have "Site_init q_e ''site'' 0 [species_B] [] None 0 1
       = Inl (ValueError ''len(defect_species) must be equal to len(defect_energies)'')"
    by (simp add: Site_init_def)
  ultimately show ?thesis
    using site_B_init site_B_fields(6) by (intro conjI)
qed

section \<open>Charge\<close>

lemma weighted_valence_all:
  assumes "label ` set ds \<subseteq> dom probs"
  shows "list_comp (weighted_valence probs) ds
           = Inr (map (\<lambda>d. the (probs (label d)) * valence d) ds)"
proof -
  have "\<And>d. d \<in> set ds \<Longrightarrow>
          weighted_valence probs d = Inr (the (probs (label d)) * valence d)"
    using assms by (auto simp: weighted_valence_def getitem_def)
  from list_comp_Inr [of ds "weighted_valence probs", OF this] show ?thesis .
qed

lemma float_of_ndarray_map:
  "float_of_ndarray (map f a) = map_sum id f (float_of_ndarray a)"
  by (cases a rule: float_of_ndarray.cases) simp_all

lemma probabilities_loop_scaling:
  "probabilities_loop (s\<lparr>scaling := a\<rparr>) bfs den ds acc = probabilities_loop s bfs den ds acc"
  by (induction ds arbitrary: acc) (simp_all split: sum.splits)

lemma boltzmann_factors_scaling:
  "boltzmann_factors bf (s\<lparr>scaling := a\<rparr>) phi temp = boltzmann_factors bf s phi temp"
  by (simp add: boltzmann_factors_def)

lemma denominator_scaling:
  "denominator bf (s\<lparr>scaling := a\<rparr>) phi temp = denominator bf s phi temp"
  by (simp add: denominator_def boltzmann_factors_scaling cong: sum.case_cong)

lemma probabilities_scaling:
  "probabilities bf (s\<lparr>scaling := a\<rparr>) phi temp = probabilities bf s phi temp"
  by (simp add: probabilities_def denominator_scaling boltzmann_factors_scaling
      probabilities_loop_scaling cong: sum.case_cong)

text \<open>
  C2 (as amended). For every Site whose \<open>scaling\<close> array has the single entry \<open>c\<close> and
  every \<open>(phi, temp)\<close> at which \<open>probabilities\<close> returns the mapping \<open>probs\<close>, every defect
  label is a key of \<open>probs\<close> and \<open>charge(phi, temp)\<close> is
  \<open>fundamental_charge * (c * (sum over all defects of probs[label] * valence) + site_valence)\<close>:
  the site valence is added after the scaling and is not scaled.
\<close>

theorem charge_formula:
  assumes "probabilities bf s phi temp = Inr probs" and "scaling s = [c]"
  shows "label ` set (defects s) \<subseteq> dom probs
         \<and> charge bf fc s phi temp
             = Inr (fc * (c * (\<Sum>d\<leftarrow>defects s. the (probs (label d)) * valence d) + site_valence s))"
proof -
  have sub: "label ` set (defects s) \<subseteq> dom probs"
    using probabilities_dom [OF assms(1)] by simp
  have "charge bf fc s phi temp
          = Inr (((\<Sum>d\<leftarrow>defects s. the (probs (label d)) * valence d) * c + site_valence s) * fc)"
    by (simp add: charge_def assms weighted_valence_all [OF sub])
  then show ?thesis
    using sub by (simp add: mult.commute)
qed

lemma site_B_scaled_init:
  "c \<noteq> 0 \<Longrightarrow> Site_init q_e ''site'' 0 [species_B] [0] (Some [c]) 1 1 = Inr (site_B_scaled c)"
  by (simp add: Site_init_def site_B_scaled_def)

lemma site_B_scaled_fields:
  "defects (site_B_scaled c) = [make_defect (species_B, 0)]"
  "mobile_defects (site_B_scaled c) = []"
  "scaling (site_B_scaled c) = [c]"
  "site_valence (site_B_scaled c) = 1"
  by (simp_all add: site_B_scaled_def Site_assign_fields make_defect_def species_B_def)

lemma site_B_scaled_probabilities:
  "probabilities bf (site_B_scaled c) phi temp = Inr [''B'' \<mapsto> 1 / 20]"
proof -
  have "\<forall>d\<in>set (defects (site_B_scaled c)). \<not> can_equilibrate d"
    by (simp add: site_B_scaled_fields) (simp add: make_defect_def species_B_def)
  from probabilities_no_mobile [OF site_B_scaled_fields(2) this]
  show ?thesis
    by (simp add: site_B_scaled_fields) (simp add: make_defect_def species_B_def)
qed

lemma site_B_scaled_charge:
  "charge bf fc (site_B_scaled c) phi temp = Inr (fc * (c * (1 / 20 * - 1) + 1))"

  by (simp add: charge_def site_B_scaled_probabilities site_B_scaled_fields weighted_valence_def getitem_def) (simp add: make_defect_def species_B_def mult.commute)


theorem charge_formula_witness:
  "probabilities (boltzmann_factor q_e k_eV) (site_B_scaled 2) 0 300 = Inr [''B'' \<mapsto> 1 / 20]
   \<and> scaling (site_B_scaled 2) = [2]
   \<and> charge (boltzmann_factor q_e k_eV) q_e (site_B_scaled 2) 0 300
       = Inr (q_e * (2 * (1 / 20 * - 1) + 1))"
proof -
  have p: "probabilities (boltzmann_factor q_e k_eV) (site_B_scaled 2) 0 300
             = Inr [''B'' \<mapsto> 1 / 20]"
    by (rule site_B_scaled_probabilities)
  have sc: "scaling (site_B_scaled 2) = [2]"
    by (rule site_B_scaled_fields)
  from charge_formula [OF p sc, of q_e]
  have "charge (boltzmann_factor q_e k_eV) q_e (site_B_scaled 2) 0 300
       = Inr (q_e * (2 * (1 / 20 * - 1) + 1))"
    by (simp add: site_B_scaled_fields) (simp add: make_defect_def species_B_def)
  with p sc show ?thesis by (intro conjI)
qed

text \<open>
  C2 as stated fails. On the Site with the fixed species \<open>B\<close> (probability 0.05, valence
  -1), site valence 1 and scaling \<open>[2]\<close>, the code returns \<open>q_e * (2 * (-0.05) + 1)\<close>,
  that is \<open>0.9 q_e\<close>; the formula of the claim gives \<open>q_e * 2 * (-0.05 + 1) = 1.9 q_e\<close>.
\<close>

theorem charge_formula_counterexample:
  "Site_init q_e ''site'' 0 [species_B] [0] (Some [2]) 1 1 = Inr (site_B_scaled 2)
   \<and> probability_of (probabilities (boltzmann_factor q_e k_eV) (site_B_scaled 2) 0 300) ''B''
       = Inr (1 / 20)
   \<and> charge (boltzmann_factor q_e k_eV) q_e (site_B_scaled 2) 0 300 = Inr (q_e * (9 / 10))
   \<and> spec_charge q_e 2 [1 / 20] (defects (site_B_scaled 2)) 1 = q_e * (19 / 10)
   \<and> charge (boltzmann_factor q_e k_eV) q_e (site_B_scaled 2) 0 300
       \<noteq> Inr (spec_charge q_e 2 [1 / 20] (defects (site_B_scaled 2)) 1)"
proof -
  have i: "Site_init q_e ''site'' 0 [species_B] [0] (Some [2]) 1 1 = Inr (site_B_scaled 2)"
    by (rule site_B_scaled_init) simp
  have p: "probability_of (probabilities (boltzmann_factor q_e k_eV) (site_B_scaled 2) 0 300) ''B''
       = Inr (1 / 20)"
    by (simp add: probability_of_def site_B_scaled_probabilities getitem_def)
  have c: "charge (boltzmann_factor q_e k_eV) q_e (site_B_scaled 2) 0 300 = Inr (q_e * (9 / 10))"
    by (simp add: site_B_scaled_charge)
  have sp: "spec_charge q_e 2 [1 / 20] (defects (site_B_scaled 2)) 1 = q_e * (19 / 10)"
    by (simp add: spec_charge_def site_B_scaled_fields) (simp add: make_defect_def species_B_def)
  have ne: "q_e * (9 / 10) \<noteq> q_e * (19 / 10)"
    by (simp add: q_e_def)
  have "charge (boltzmann_factor q_e k_eV) q_e (site_B_scaled 2) 0 300
       \<noteq> Inr (spec_charge q_e 2 [1 / 20] (defects (site_B_scaled 2)) 1)"
    using ne by (simp add: c sp)
  with i p c sp show ?thesis by (intro conjI)
qed

text \<open>
  C5 (as amended). For every Site and every \<open>(phi, temp)\<close>, with the Boltzmann factors
  held fixed: multiplying \<open>fundamental_charge\<close> by \<open>c\<close> multiplies the returned charge by
  \<open>c\<close> (and leaves an exception as it is); multiplying every entry of \<open>scaling\<close> by \<open>c\<close>
  turns a returned charge \<open>v\<close> into \<open>c * v + (1 - c) * fundamental_charge * site_valence\<close>,
  which is \<open>c * v\<close> when the site valence is zero.
\<close>

theorem charge_linear:
  "charge bf (c * fc) s phi temp = map_sum id (\<lambda>v. c * v) (charge bf fc s phi temp)
   \<and> charge bf fc (s\<lparr>scaling := map (\<lambda>k. c * k) (scaling s)\<rparr>) phi temp
       = map_sum id (\<lambda>v. c * v + (1 - c) * fc * site_valence s) (charge bf fc s phi temp)"
proof (cases "probabilities bf s phi temp")
  case (Inl e)
  then show ?thesis by (simp add: charge_def probabilities_scaling)
next
  case (Inr probs)
  show ?thesis
  proof (cases "list_comp (weighted_valence probs) (defects s)")
    case (Inl e)
    then show ?thesis by (simp add: charge_def probabilities_scaling Inr)
  next
    case terms: (Inr terms)
    show ?thesis
      by (cases "scaling s" rule: float_of_ndarray.cases)
        (simp_all add: charge_def probabilities_scaling Inr terms algebra_simps)
  qed
qed

text \<open>
  C5 as stated fails. The Site with the fixed species \<open>B\<close> and site valence 1 has charge
  \<open>0.95 q_e\<close> with scaling \<open>[1]\<close> and \<open>0.9 q_e\<close> with scaling \<open>[2]\<close>: doubling the scaling
  does not double the charge.
\<close>

theorem charge_linear_counterexample:
  "Site_init q_e ''site'' 0 [species_B] [0] (Some [1]) 1 1 = Inr (site_B_scaled 1)
   \<and> Site_init q_e ''site'' 0 [species_B] [0] (Some [2]) 1 1 = Inr (site_B_scaled 2)
   \<and> scaling (site_B_scaled 2) = map (\<lambda>k. 2 * k) (scaling (site_B_scaled 1))
   \<and> charge (boltzmann_factor q_e k_eV) q_e (site_B_scaled 1) 0 300 = Inr (q_e * (19 / 20))
   \<and> charge (boltzmann_factor q_e k_eV) q_e (site_B_scaled 2) 0 300 = Inr (q_e * (9 / 10))
   \<and> q_e * (9 / 10) \<noteq> 2 * (q_e * (19 / 20))"
proof -
  have 1: "Site_init q_e ''site'' 0 [species_B] [0] (Some [1]) 1 1 = Inr (site_B_scaled 1)"
    by (rule site_B_scaled_init) simp
  have 2: "Site_init q_e ''site'' 0 [species_B] [0] (Some [2]) 1 1 = Inr (site_B_scaled 2)"
    by (rule site_B_scaled_init) simp
  have 3: "scaling (site_B_scaled 2) = map (\<lambda>k. 2 * k) (scaling (site_B_scaled 1))"
    by (simp add: site_B_scaled_fields)
  have 4: "charge (boltzmann_factor q_e k_eV) q_e (site_B_scaled 1) 0 300 = Inr (q_e * (19 / 20))"
    by (simp add: site_B_scaled_charge)
  have 5: "charge (boltzmann_factor q_e k_eV) q_e (site_B_scaled 2) 0 300 = Inr (q_e * (9 / 10))"
    by (simp add: site_B_scaled_charge)
  have 6: "q_e * (9 / 10) \<noteq> 2 * (q_e * (19 / 20))"
    by (simp add: q_e_def)
  from 1 2 3 4 5 6 show ?thesis by (intro conjI)
qed

section \<open>The zero-energy boundary case\<close>












section \<open>Construction from a SiteData record\<close>

lemma from_site_data_Inr:
  assumes "from_site_data fc site_data species kwargs = Inr s"
  shows "s = Site_assign fc (sd_label site_data) (sd_x site_data)
               (filter (\<lambda>ds. ds_label ds \<in> set (map dd_label (defect_data site_data))) species)
               (map dd_energy (defect_data site_data))
               (ones_like (map dd_energy (defect_data site_data))) (sd_valence site_data) 1"
    and "compatible site_data species"
proof -
  let ?labels = "remdups (map dd_label (defect_data site_data))"
  let ?pass = "filter (\<lambda>ds. ds_label ds \<in> set (map dd_label (defect_data site_data))) species"
  have none: "find (\<lambda>l. l \<notin> set (map ds_label ?pass)) ?labels = None"
    using assms by (auto simp: from_site_data_def Let_def split: option.splits)
  have init: "Site_init fc (sd_label site_data) (sd_x site_data) ?pass
                (map dd_energy (defect_data site_data)) None (sd_valence site_data) 1 = Inr s"
    using assms none by (simp add: from_site_data_def Let_def)
  then show "s = Site_assign fc (sd_label site_data) (sd_x site_data) ?pass
               (map dd_energy (defect_data site_data))
               (ones_like (map dd_energy (defect_data site_data))) (sd_valence site_data) 1"
    by (simp add: Site_init_def split: if_splits)
  have len: "length ?pass = length (defect_data site_data)"
    using init by (simp add: Site_init_def split: if_splits)
  have "set (map dd_label (defect_data site_data)) \<subseteq> set (map ds_label ?pass)"
    using none by (auto simp: find_None_iff)
  then have "set (map dd_label (defect_data site_data)) \<subseteq> set (map ds_label species)"
    by auto
  with len show "compatible site_data species"
    by (simp add: compatible_def)
qed

lemma from_site_data_compatible:
  assumes "compatible site_data species"
  shows "from_site_data fc site_data species kwargs
           = Inr (Site_assign fc (sd_label site_data) (sd_x site_data)
               (filter (\<lambda>ds. ds_label ds \<in> set (map dd_label (defect_data site_data))) species)
               (map dd_energy (defect_data site_data))
               (ones_like (map dd_energy (defect_data site_data))) (sd_valence site_data) 1)"
proof -
  let ?labels = "remdups (map dd_label (defect_data site_data))"
  let ?pass = "filter (\<lambda>ds. ds_label ds \<in> set (map dd_label (defect_data site_data))) species"
  from assms have sub: "set (map dd_label (defect_data site_data)) \<subseteq> set (map ds_label species)"
    and len: "length ?pass = length (defect_data site_data)"
    by (simp_all add: compatible_def)
  have "\<And>l. l \<in> set (map dd_label (defect_data site_data)) \<Longrightarrow> l \<in> set (map ds_label ?pass)"
  proof -
    fix l assume l: "l \<in> set (map dd_label (defect_data site_data))"
    with sub obtain ds where "ds \<in> set species" and "ds_label ds = l" by auto
    with l have "ds \<in> set ?pass" by simp
    with \<open>ds_label ds = l\<close> show "l \<in> set (map ds_label ?pass)" by force
  qed
  then have none: "find (\<lambda>l. l \<notin> set (map ds_label ?pass)) ?labels = None"
    by (simp add: find_None_iff)
  show ?thesis
    using none len by (simp add: from_site_data_def Let_def Site_init_def)
qed

text \<open>
  C10. For every \<open>SiteData\<close> record and compatible species list, \<open>Site.from_site_data\<close>
  returns a Site whose scaling is the all-ones default, whose saturation parameter is 1 and
  whose valence is the record's valence, and it returns the same Site for any other keyword
  arguments: \<open>kwargs\<close> is never passed on.
\<close>

theorem from_site_data_defaults:
  assumes "compatible site_data species"
  shows "\<exists>s. from_site_data fc site_data species kwargs = Inr s
           \<and> scaling s = replicate (length (defect_data site_data)) 1
           \<and> saturation_parameter s = 1
           \<and> site_valence s = sd_valence site_data
           \<and> from_site_data fc site_data species kwargs' = Inr s"
  by (simp add: from_site_data_compatible [OF assms] Site_assign_fields ones_like_def)

theorem from_site_data_defaults_witness:
  "compatible site_data_AB [species_A, species_B]
   \<and> (\<exists>s. from_site_data q_e site_data_AB [species_A, species_B]
              [(''saturation_parameter'', 1 / 2 :: real)] = Inr s
          \<and> scaling s = [1, 1]
          \<and> saturation_parameter s = 1
          \<and> site_valence s = 2
          \<and> from_site_data q_e site_data_AB [species_A, species_B] [(''scaling'', [3, 4 :: real])]
              = Inr s)"
proof -
  have c: "compatible site_data_AB [species_A, species_B]"
    by (simp add: compatible_def site_data_AB_def species_A_def species_B_def)
  from from_site_data_defaults [OF c, of q_e "[(''saturation_parameter'', 1 / 2 :: real)]"
      "[(''scaling'', [3, 4 :: real])]"]
  show ?thesis
    using c by (simp add: site_data_AB_def)
qed

end
